theory Spec2Isabelle
  imports
    Complex_Main
    "HOL-Library.Char_ord"
    "HOL-Library.List_Lexorder"
    "HOL-Library.Multiset"
    "HOL-Library.Option_ord"
begin

section \<open>The note store (src/modules/storage.py)\<close>

subsection \<open>The clock and its ISO text\<close>

text \<open>
  \<^verbatim>\<open>pd.Timestamp.now()\<close> reads the wall clock at microsecond resolution; the
  value read is an argument \<open>now\<close> of every operation that reads the clock.
  \<^verbatim>\<open>isoformat()\<close> prints it as \<^verbatim>\<open>YYYY-MM-DDTHH:MM:SS\<close>, followed by
  \<^verbatim>\<open>.ffffff\<close> when the microsecond part is not zero.
\<close>

record timestamp =
  year :: nat
  month :: nat
  day :: nat
  hour :: nat
  minute :: nat
  second :: nat
  microsecond :: nat

definition days_in_month :: "nat \<Rightarrow> nat \<Rightarrow> nat" where
  "days_in_month y m =
     (if m = 2 then (if y mod 4 = 0 \<and> (y mod 100 \<noteq> 0 \<or> y mod 400 = 0) then 29 else 28)
      else if m \<in> {4, 6, 9, 11} then 30 else 31)"

definition valid_timestamp :: "timestamp \<Rightarrow> bool" where
  "valid_timestamp t \<longleftrightarrow>
     1 \<le> year t \<and> year t \<le> 9999 \<and> 1 \<le> month t \<and> month t \<le> 12 \<and>
     1 \<le> day t \<and> day t \<le> days_in_month (year t) (month t) \<and>
     hour t < 24 \<and> minute t < 60 \<and> second t < 60 \<and> microsecond t < 1000000"



definition digit_char :: "nat \<Rightarrow> char" where
  "digit_char d = char_of (48 + d)"

text \<open>\<open>zpad k n\<close> is \<^verbatim>\<open>'%0kd' % n\<close> for \<open>n < 10 ^ k\<close>, the only case a valid
  timestamp reaches.\<close>

fun zpad :: "nat \<Rightarrow> nat \<Rightarrow> string" where
  "zpad 0 n = []"
| "zpad (Suc k) n = zpad k (n div 10) @ [digit_char (n mod 10)]"

definition isoformat :: "timestamp \<Rightarrow> string" where
  "isoformat t =
     zpad 4 (year t) @ ''-'' @ zpad 2 (month t) @ ''-'' @ zpad 2 (day t) @ ''T'' @
     zpad 2 (hour t) @ '':'' @ zpad 2 (minute t) @ '':'' @ zpad 2 (second t) @
     (if microsecond t = 0 then [] else ''.'' @ zpad 6 (microsecond t))"

subsection \<open>The note table and the stats singleton\<close>

text \<open>
  A row of \<^verbatim>\<open>notes.csv\<close> as \<^verbatim>\<open>pd.read_csv\<close> returns it; the fields are the columns
  \<^verbatim>\<open>id, datetime, title, text, tags, xp\<close>. A cell that is empty in the file reads as
  NaN, here \<open>None\<close>. Text cells stay text: the per-column numeric inference of
  \<^verbatim>\<open>read_csv\<close> is not represented.
\<close>

record note_row =
  col_id :: int
  col_datetime :: "string option"
  col_title :: "string option"
  col_text :: "string option"
  col_tags :: "string option"
  col_xp :: "int option"

text \<open>
  \<^verbatim>\<open>stats.json\<close>. Both counters are present in every file that \<^verbatim>\<open>ensure_files\<close> or
  \<^verbatim>\<open>save_stats\<close> writes, so \<^verbatim>\<open>stats.get(k, 0)\<close> and \<^verbatim>\<open>stats[k]\<close> read the same
  value; \<open>badges\<close> is the optional key other code keeps in the same file.
\<close>

record stats =
  total_xp :: int
  notes_created :: int
  badges :: "string list option"

record store =
  notes_csv :: "note_row list"
  stats_json :: stats

record files =
  notes_file :: "note_row list option"
  stats_file :: "stats option"

text \<open>
  \<^verbatim>\<open>ensure_files\<close> creates each missing file with its default content and leaves an
  existing one alone. Every operation calls it first; the operations below are
  written on its result.
\<close>

definition ensure_files :: "files \<Rightarrow> store" where
  "ensure_files fs =
     \<lparr>notes_csv = (case notes_file fs of None \<Rightarrow> [] | Some df \<Rightarrow> df),
      stats_json = (case stats_file fs of
                      None \<Rightarrow> \<lparr>total_xp = 0, notes_created = 0, badges = None\<rparr>
                    | Some st \<Rightarrow> st)\<rparr>"

definition empty_store :: store where
  "empty_store = ensure_files \<lparr>notes_file = None, stats_file = None\<rparr>"

text \<open>The strings \<^verbatim>\<open>read_csv\<close> takes for a missing value by default.\<close>

definition na_values :: "string list" where
  "na_values =
     ['''', ''#N/A'', ''#N/A N/A'', ''#NA'', ''-1.#IND'', ''-1.#QNAN'', ''-NaN'', ''-nan'',
      ''1.#IND'', ''1.#QNAN'', ''<NA>'', ''N/A'', ''NA'', ''NULL'', ''NaN'', ''None'',
      ''n/a'', ''nan'', ''null'']"

text \<open>A text cell written by \<^verbatim>\<open>to_csv\<close> and read back by \<^verbatim>\<open>read_csv\<close>.\<close>

definition csv_cell :: "string \<Rightarrow> string option" where
  "csv_cell v = (if v \<in> set na_values then None else Some v)"

definition ids :: "note_row list \<Rightarrow> int list" where
  "ids df = map col_id df"

definition save_note :: "string \<Rightarrow> string \<Rightarrow> string \<Rightarrow> int \<Rightarrow> timestamp \<Rightarrow> store \<Rightarrow> int \<times> store" where
  "save_note title text tags xp now s =
     (let df = notes_csv s;
          nid = (if df = [] then 1 else Max (set (ids df)) + 1);
          new = \<lparr>col_id = nid, col_datetime = csv_cell (isoformat now),
                 col_title = csv_cell title, col_text = csv_cell text,
                 col_tags = csv_cell tags, col_xp = Some xp\<rparr>;
          df = df @ [new];
          st = stats_json s;
          st = st\<lparr>total_xp := total_xp st + xp\<rparr>;
          st = st\<lparr>notes_created := notes_created st + 1\<rparr>
      in (nid, \<lparr>notes_csv = df, stats_json = st\<rparr>))"

definition update_note ::
  "int \<Rightarrow> string \<Rightarrow> string \<Rightarrow> string \<Rightarrow> int \<Rightarrow> timestamp \<Rightarrow> store \<Rightarrow> bool \<times> store" where
  "update_note note_id title text tags xp now s =
     (let df = notes_csv s in
      if df = [] \<or> note_id \<notin> set (ids df) then (False, s)
      else
        let df = map (\<lambda>r. if col_id r = note_id then r\<lparr>col_title := csv_cell title\<rparr> else r) df;
            df = map (\<lambda>r. if col_id r = note_id then r\<lparr>col_text := csv_cell text\<rparr> else r) df;
            df = map (\<lambda>r. if col_id r = note_id then r\<lparr>col_tags := csv_cell tags\<rparr> else r) df;
            df = map (\<lambda>r. if col_id r = note_id
                           then r\<lparr>col_datetime := csv_cell (isoformat now)\<rparr> else r) df
        in (True, s\<lparr>notes_csv := df\<rparr>))"

text \<open>\<^verbatim>\<open>fillna('')\<close> on the columns \<^verbatim>\<open>tags\<close>, \<^verbatim>\<open>title\<close> and \<^verbatim>\<open>text\<close>.\<close>

definition fillna :: "string option \<Rightarrow> string option" where
  "fillna c = (case c of None \<Rightarrow> Some [] | Some v \<Rightarrow> Some v)"

text \<open>
  \<^verbatim>\<open>sort_values('datetime', ascending=False)\<close>: pandas reverses the rows, sorts
  them ascending by the key and reverses the result, with NaN keys last. The keys are
  compared as text. Where the sort is stable (small frames) rows with equal keys keep
  their order, as here; no statement below depends on the order of equal keys.
\<close>

definition sort_values_desc :: "note_row list \<Rightarrow> note_row list" where
  "sort_values_desc df = rev (sort_key col_datetime (rev df))"

text \<open>\<^verbatim>\<open>xs[:n]\<close>, which is also \<^verbatim>\<open>df.head(n)\<close>: a negative \<open>n\<close> drops the last \<open>-n\<close>.\<close>

definition py_take :: "int \<Rightarrow> 'a list \<Rightarrow> 'a list" where
  "py_take n xs = (if 0 \<le> n then take (nat n) xs else take (length xs - nat (- n)) xs)"

definition list_notes :: "int \<Rightarrow> store \<Rightarrow> note_row list" where
  "list_notes limit s =
     (let df = notes_csv s in
      if df = [] then []
      else
        let df = map (\<lambda>r. r\<lparr>col_tags := fillna (col_tags r)\<rparr>) df;
            df = map (\<lambda>r. r\<lparr>col_title := fillna (col_title r)\<rparr>) df;
            df = map (\<lambda>r. r\<lparr>col_text := fillna (col_text r)\<rparr>) df
        in py_take limit (sort_values_desc df))"

subsection \<open>Python values and \<^verbatim>\<open>int()\<close>\<close>

text \<open>
  The argument of \<^verbatim>\<open>delete_note\<close> is any Python value. A float is given by the real
  number it denotes, or is NaN or infinite.
\<close>

datatype pyval = PyInt int | PyFloat real | PyNaN | PyInf | PyStr string | PyNone

text \<open>
  The characters \<^verbatim>\<open>str.strip()\<close> removes and \<^verbatim>\<open>int()\<close> skips, among the ASCII
  ones. Texts are sequences of bytes here, so the blanks beyond ASCII are not covered.
\<close>

definition is_space :: "char \<Rightarrow> bool" where
  "is_space c \<longleftrightarrow> c \<in> set [CHR '' '', CHR 0x09, CHR 0x0A, CHR 0x0B, CHR 0x0C, CHR 0x0D,
                             CHR 0x1C, CHR 0x1D, CHR 0x1E, CHR 0x1F]"

definition lstrip :: "string \<Rightarrow> string" where
  "lstrip v = dropWhile is_space v"

definition rstrip :: "string \<Rightarrow> string" where
  "rstrip v = rev (dropWhile is_space (rev v))"

definition strip :: "string \<Rightarrow> string" where
  "strip v = rstrip (lstrip v)"

definition is_digit :: "char \<Rightarrow> bool" where
  "is_digit c \<longleftrightarrow> CHR ''0'' \<le> c \<and> c \<le> CHR ''9''"

definition digit_val :: "char \<Rightarrow> int" where
  "digit_val c = int (of_char c) - 48"

text \<open>The digits of a decimal literal, where single underscores may separate digits.\<close>

fun digits_of :: "string \<Rightarrow> string option" where
  "digits_of [] = None"
| "digits_of [c] = (if is_digit c then Some [c] else None)"
| "digits_of (c # d # cs) =
     (if is_digit c then
        (if d = CHR ''_'' then map_option (\<lambda>r. c # r) (digits_of cs)
         else map_option (\<lambda>r. c # r) (digits_of (d # cs)))
      else None)"

definition decimal_value :: "string \<Rightarrow> int" where
  "decimal_value ds = foldl (\<lambda>acc c. 10 * acc + digit_val c) 0 ds"

text \<open>\<^verbatim>\<open>int(v)\<close> for a string: blanks around, an optional sign, decimal digits.\<close>

definition int_of_str :: "string \<Rightarrow> int option" where
  "int_of_str v =
     (case strip v of
        [] \<Rightarrow> None
      | c # cs \<Rightarrow>
          if c = CHR ''-'' then map_option (\<lambda>ds. - decimal_value ds) (digits_of cs)
          else if c = CHR ''+'' then map_option decimal_value (digits_of cs)
          else map_option decimal_value (digits_of (c # cs)))"

text \<open>\<^verbatim>\<open>int(v)\<close>; \<open>None\<close> stands for the exception it raises.\<close>

fun py_int :: "pyval \<Rightarrow> int option" where
  "py_int (PyInt i) = Some i"
| "py_int (PyFloat x) = Some (if 0 \<le> x then \<lfloor>x\<rfloor> else \<lceil>x\<rceil>)"
| "py_int PyNaN = None"
| "py_int PyInf = None"
| "py_int (PyStr v) = int_of_str v"
| "py_int PyNone = None"

definition delete_note :: "pyval \<Rightarrow> store \<Rightarrow> bool \<times> store" where
  "delete_note note_id s =
     (let df = notes_csv s in
      if df = [] then (False, s)
      else case py_int note_id of
        None \<Rightarrow> (False, s)
      | Some nid \<Rightarrow>
          if nid \<notin> set (ids df) then (False, s)
          else
            let xp = (case filter (\<lambda>r. col_id r = nid) df of
                        [] \<Rightarrow> 0
                      | row # _ \<Rightarrow> (case col_xp row of None \<Rightarrow> 0 | Some v \<Rightarrow> v));
                df = filter (\<lambda>r. col_id r \<noteq> nid) df;
                st = stats_json s;
                st = st\<lparr>total_xp := max 0 (total_xp st - xp)\<rparr>;
                st = st\<lparr>notes_created := max 0 (notes_created st - 1)\<rparr>
            in (True, \<lparr>notes_csv = df, stats_json = st\<rparr>))"

subsection \<open>Reading an ISO timestamp back\<close>

text \<open>
  A parser for the two shapes \<^verbatim>\<open>isoformat\<close> prints, \<^verbatim>\<open>YYYY-MM-DDTHH:MM:SS\<close> and
  \<^verbatim>\<open>YYYY-MM-DDTHH:MM:SS.ffffff\<close>, as \<^verbatim>\<open>datetime.fromisoformat\<close> reads them: it
  checks the separators, reads the decimal fields and checks the date and time ranges.
\<close>

definition read_nat :: "string \<Rightarrow> nat option" where
  "read_nat v =
     (if v \<noteq> [] \<and> list_all is_digit v
      then Some (foldl (\<lambda>acc c. 10 * acc + (of_char c - 48)) 0 v) else None)"

definition parse_iso :: "string \<Rightarrow> timestamp option" where
  "parse_iso v =
     (if length v \<noteq> 19 \<and> length v \<noteq> 26 then None
      else if [v ! 4, v ! 7, v ! 10, v ! 13, v ! 16] \<noteq> ''--T::'' then None
      else if length v = 26 \<and> v ! 19 \<noteq> CHR ''.'' then None
      else
        (case (read_nat (take 4 v), read_nat (take 2 (drop 5 v)), read_nat (take 2 (drop 8 v)),
               read_nat (take 2 (drop 11 v)), read_nat (take 2 (drop 14 v)),
               read_nat (take 2 (drop 17 v)),
               (if length v = 26 then read_nat (drop 20 v) else Some 0)) of
           (Some y, Some mo, Some d, Some h, Some mi, Some sec, Some us) \<Rightarrow>
             (let t = \<lparr>year = y, month = mo, day = d, hour = h, minute = mi, second = sec,
                       microsecond = us\<rparr>
              in if valid_timestamp t then Some t else None)
         | _ \<Rightarrow> None))"

subsection \<open>Sequences of store calls\<close>

datatype store_op =
    Create string string string int timestamp
  | Update int string string string int timestamp
  | Delete pyval

text \<open>Runs the calls in order; the result holds the ids the \<open>Create\<close> calls returned.\<close>

fun exec_ops :: "store_op list \<Rightarrow> store \<Rightarrow> int list \<times> store" where
  "exec_ops [] s = ([], s)"
| "exec_ops (Create title text tags xp now # ops) s =
     (case save_note title text tags xp now s of
        (nid, s') \<Rightarrow> (case exec_ops ops s' of (created, s'') \<Rightarrow> (nid # created, s'')))"
| "exec_ops (Update note_id title text tags xp now # ops) s =
     exec_ops ops (snd (update_note note_id title text tags xp now s))"
| "exec_ops (Delete note_id # ops) s = exec_ops ops (snd (delete_note note_id s))"

text \<open>The id the next \<open>save_note\<close> returns.\<close>

definition next_id :: "note_row list \<Rightarrow> int" where
  "next_id df = (if df = [] then 1 else Max (set (ids df)) + 1)"

text \<open>No \<open>Delete\<close> of the run removes a row that holds the highest id of the table
  at that moment.\<close>

fun keeps_highest :: "store_op list \<Rightarrow> store \<Rightarrow> bool" where
  "keeps_highest [] s = True"
| "keeps_highest (Delete v # ops) s =
     ((case py_int v of
         None \<Rightarrow> True
       | Some n \<Rightarrow> notes_csv s = [] \<or> n \<noteq> Max (set (ids (notes_csv s)))) \<and>
      keeps_highest ops (snd (delete_note v s)))"
| "keeps_highest (Create title text tags xp now # ops) s =
     keeps_highest ops (snd (save_note title text tags xp now s))"
| "keeps_highest (Update note_id title text tags xp now # ops) s =
     keeps_highest ops (snd (update_note note_id title text tags xp now s))"

fun is_delete :: "store_op \<Rightarrow> bool" where
  "is_delete (Delete v) = True"
| "is_delete _ = False"

fun created_xp :: "store_op \<Rightarrow> int" where
  "created_xp (Create title text tags xp now) = xp"
| "created_xp _ = 0"

text \<open>The aggregates recomputed from the table, as \<^verbatim>\<open>sync_stats\<close> does: the sum of
  the \<^verbatim>\<open>xp\<close> column with NaN read as 0, and the number of rows.\<close>

definition xp_value :: "note_row \<Rightarrow> int" where
  "xp_value r = (case col_xp r of None \<Rightarrow> 0 | Some v \<Rightarrow> v)"

definition recomputed_xp :: "note_row list \<Rightarrow> int" where
  "recomputed_xp df = sum_list (map xp_value df)"

definition recomputed_count :: "note_row list \<Rightarrow> int" where
  "recomputed_count df = int (length df)"

definition stats_in_sync :: "store \<Rightarrow> bool" where
  "stats_in_sync s \<longleftrightarrow>
     total_xp (stats_json s) = recomputed_xp (notes_csv s) \<and>
     notes_created (stats_json s) = recomputed_count (notes_csv s)"

definition sync_invariant :: "store \<Rightarrow> bool" where
  "sync_invariant s \<longleftrightarrow>
     distinct (ids (notes_csv s)) \<and> (\<forall>r \<in> set (notes_csv s). 0 \<le> xp_value r) \<and> stats_in_sync s"

section \<open>The reminder scheduler (src/modules/reminders.py)\<close>

text \<open>
  The job table of the background scheduler: at most one pending job per id.
  The scheduler's own \<^verbatim>\<open>remove_job\<close> raises \<^verbatim>\<open>JobLookupError\<close> when no job has the id.
\<close>

record job =
  run_date :: timestamp
  msg :: string

type_synonym job_table = "string \<rightharpoonup> job"

datatype scheduler_error = JobLookupError

definition scheduler_remove_job :: "string \<Rightarrow> job_table \<Rightarrow> scheduler_error + job_table" where
  "scheduler_remove_job jid jobs =
     (case jobs jid of None \<Rightarrow> Inl JobLookupError | Some j \<Rightarrow> Inr (jobs(jid := None)))"

definition remove_job :: "string \<Rightarrow> job_table \<Rightarrow> bool \<times> job_table" where
  "remove_job jid jobs =
     (case scheduler_remove_job jid jobs of
        Inr jobs' \<Rightarrow> (True, jobs')
      | Inl e \<Rightarrow> (False, jobs))"

section \<open>Parsing the AI response (src/ai_utils.py)\<close>





record card =
  question :: string
  answer :: string





text \<open>\<^verbatim>\<open>if current_question and current_answer: questions.append(...)\<close>\<close>

definition append_if_complete :: "string option \<Rightarrow> string option \<Rightarrow> card list \<Rightarrow> card list" where
  "append_if_complete current_question current_answer questions =
     (case current_question of
        None \<Rightarrow> questions
      | Some q \<Rightarrow>
          (case current_answer of
             None \<Rightarrow> questions
           | Some a \<Rightarrow>
               if q \<noteq> [] \<and> a \<noteq> [] then questions @ [\<lparr>question = q, answer = a\<rparr>]
               else questions))"





subsection \<open>Question lines, answer lines and pairs\<close>














section \<open>Concrete data\<close>

definition demo_time :: timestamp where
  "demo_time =
     \<lparr>year = 2025, month = 3, day = 9, hour = 14, minute = 5, second = 7, microsecond = 0\<rparr>"

definition demo_time2 :: timestamp where
  "demo_time2 = demo_time\<lparr>second := 8\<rparr>"

definition demo_time3 :: timestamp where
  "demo_time3 = demo_time\<lparr>second := 8, microsecond := 120000\<rparr>"


definition demo_store :: store where
  "demo_store =
     \<lparr>notes_csv =
        [\<lparr>col_id = 5, col_datetime = Some ''2025-03-01T09:00:00'', col_title = Some ''Graphs'',
          col_text = Some ''BFS and DFS'', col_tags = None, col_xp = Some 5\<rparr>,
         \<lparr>col_id = 6, col_datetime = Some ''2025-03-02T09:30:00.250000'', col_title = None,
          col_text = Some ''Heaps'', col_tags = Some ''cs,trees'', col_xp = Some 6\<rparr>],
      stats_json = \<lparr>total_xp = 11, notes_created = 2, badges = None\<rparr>\<rparr>"

definition demo_ops :: "store_op list" where
  "demo_ops = [Create ''Sets'' ''union'' ''math'' 5 demo_time, Delete (PyInt 5),
               Create ''Maps'' ''lookup'' '''' 5 demo_time]"



definition demo_jobs :: job_table where
  "demo_jobs = [''r1'' \<mapsto> \<lparr>run_date = demo_time, msg = ''ping''\<rparr>]"

section \<open>Properties of the note store\<close>

subsection \<open>Auxiliary facts\<close>

lemma length_zpad [simp]: "length (zpad k n) = k"
  by (induction k arbitrary: n) auto

lemma length_isoformat: "19 \<le> length (isoformat t)"
  by (simp add: isoformat_def)

lemma csv_cell_isoformat: "csv_cell (isoformat t) = Some (isoformat t)"
proof -
  have "\<forall>v \<in> set na_values. length v < 19" by (simp add: na_values_def)
  with length_isoformat [of t] have "isoformat t \<notin> set na_values" by fastforce
  then show ?thesis by (simp add: csv_cell_def)
qed

lemma update_note_found:
  assumes "note_id \<in> set (ids (notes_csv s))"
  shows "update_note note_id title text tags xp now s =
     (True, s\<lparr>notes_csv := map (\<lambda>r. if col_id r = note_id
        then r\<lparr>col_title := csv_cell title, col_text := csv_cell text, col_tags := csv_cell tags,
               col_datetime := Some (isoformat now)\<rparr> else r) (notes_csv s)\<rparr>)"
proof -
  from assms have ne: "notes_csv s \<noteq> []" by (auto simp: ids_def)
  show ?thesis
    using assms ne
    unfolding update_note_def Let_def csv_cell_isoformat
    by (simp add: o_def if_distrib cong: if_cong)
qed

lemma find_filter_hd:
  "(case filter P xs of [] \<Rightarrow> a | x # _ \<Rightarrow> f x) = (case find P xs of None \<Rightarrow> a | Some x \<Rightarrow> f x)"
  by (induction xs) auto

lemma find_present:
  "nid \<in> set (ids df) \<Longrightarrow>
     \<exists>row. find (\<lambda>r. col_id r = nid) df = Some row \<and> row \<in> set df \<and> col_id row = nid"
  by (induction df) (auto simp: ids_def)

lemma delete_note_found:
  assumes "nid \<in> set (ids (notes_csv s))" and "py_int v = Some nid"
  shows "delete_note v s =
    (True, \<lparr>notes_csv = filter (\<lambda>r. col_id r \<noteq> nid) (notes_csv s),
            stats_json = (stats_json s)\<lparr>total_xp := max 0 (total_xp (stats_json s) -
                (case find (\<lambda>r. col_id r = nid) (notes_csv s) of None \<Rightarrow> 0 | Some row \<Rightarrow> xp_value row)),
              notes_created := max 0 (notes_created (stats_json s) - 1)\<rparr>\<rparr>)"
proof -
  from assms have ne: "notes_csv s \<noteq> []" by (auto simp: ids_def)
  show ?thesis
    using assms ne unfolding delete_note_def Let_def find_filter_hd xp_value_def
    by simp
qed

lemma delete_note_not_found:
  "py_int v = Some nid \<Longrightarrow> nid \<notin> set (ids (notes_csv s)) \<Longrightarrow> delete_note v s = (False, s)"
  by (simp add: delete_note_def Let_def)

lemma delete_note_malformed: "py_int v = None \<Longrightarrow> delete_note v s = (False, s)"
  by (simp add: delete_note_def Let_def)






subsection \<open>Updating a note\<close>



text \<open>
  Claim C4. For every store and every id that no row of the note table has,
  \<open>update_note\<close> returns false and the store afterwards is the store before: the
  same rows and the same stats singleton.
\<close>

theorem update_note_absent_unchanged:
  "note_id \<notin> set (ids (notes_csv s)) \<Longrightarrow>
     update_note note_id title text tags xp now s = (False, s)"
  by (simp add: update_note_def)

theorem update_note_absent_unchanged_witness:
  "7 \<notin> set (ids (notes_csv demo_store)) \<and>
   update_note 7 ''t'' ''x'' ''g'' 9 demo_time demo_store = (False, demo_store)"
proof -
  have h: "7 \<notin> set (ids (notes_csv demo_store))"
    by (simp add: demo_store_def ids_def)
  from h update_note_absent_unchanged [OF h] show ?thesis by (rule conjI)
qed

subsection \<open>Deleting a note\<close>





subsection \<open>Timestamps as text\<close>

lemma of_char_digit_char: "d < 10 \<Longrightarrow> (of_char (digit_char d) :: nat) = 48 + d"
  by (simp add: digit_char_def)

lemma is_digit_digit_char: "d < 10 \<Longrightarrow> is_digit (digit_char d)"
  by (simp add: is_digit_def less_eq_char_def of_char_digit_char)

lemma zpad_digits: "list_all is_digit (zpad k n)"
  by (induction k arbitrary: n) (auto simp: is_digit_digit_char)

lemma zpad_value:
  "foldl (\<lambda>acc c. 10 * acc + (of_char c - 48)) 0 (zpad k n) = n mod 10 ^ k"
proof (induction k arbitrary: n)
  case 0
  then show ?case by simp
next
  case (Suc k)
  have "n mod 10 ^ Suc k = 10 * (n div 10 mod 10 ^ k) + n mod 10"
    by (simp add: mod_mult2_eq)
  with Suc show ?case by (simp add: of_char_digit_char)
qed

lemma read_nat_zpad: "0 < k \<Longrightarrow> n < 10 ^ k \<Longrightarrow> read_nat (zpad k n) = Some n"
proof -
  assume k: "0 < k" and n: "n < 10 ^ k"
  from k have "zpad k n \<noteq> []" by (cases k) simp_all
  with n show ?thesis by (simp add: read_nat_def zpad_digits zpad_value)
qed







lemma valid_timestamp_bounds:
  assumes "valid_timestamp t"
  shows "year t < 10 ^ 4" "month t < 10 ^ 2" "day t < 10 ^ 2" "hour t < 10 ^ 2"
    "minute t < 10 ^ 2" "second t < 10 ^ 2" "microsecond t < 10 ^ 6"
proof -
  have "days_in_month (year t) (month t) \<le> 31" by (simp add: days_in_month_def)
  with assms show "day t < 10 ^ 2" by (simp add: valid_timestamp_def)
qed (use assms in \<open>simp_all add: valid_timestamp_def\<close>)


lemma parse_iso_isoformat:
  assumes "valid_timestamp t"
  shows "parse_iso (isoformat t) = Some t"
proof -
  note b = valid_timestamp_bounds [OF assms]
  note r = read_nat_zpad [OF _ b(1)] read_nat_zpad [OF _ b(2)] read_nat_zpad [OF _ b(3)]
    read_nat_zpad [OF _ b(4)] read_nat_zpad [OF _ b(5)] read_nat_zpad [OF _ b(6)]
    read_nat_zpad [OF _ b(7)]
  show ?thesis
  proof (cases "microsecond t = 0")
    case True
    then have "isoformat t = zpad 4 (year t) @ ''-'' @ zpad 2 (month t) @ ''-'' @ zpad 2 (day t) @ ''T'' @
     zpad 2 (hour t) @ '':'' @ zpad 2 (minute t) @ '':'' @ zpad 2 (second t)"
      by (simp add: isoformat_def)
    moreover from True have "\<lparr>year = year t, month = month t, day = day t, hour = hour t,
        minute = minute t, second = second t, microsecond = 0\<rparr> = t"
      by (cases t) simp
    ultimately show ?thesis
      using assms by (simp add: parse_iso_def r nth_append Let_def)
  next
    case False
    then have "isoformat t = zpad 4 (year t) @ ''-'' @ zpad 2 (month t) @ ''-'' @ zpad 2 (day t) @ ''T'' @
     zpad 2 (hour t) @ '':'' @ zpad 2 (minute t) @ '':'' @ zpad 2 (second t) @ ''.'' @
     zpad 6 (microsecond t)"
      by (simp add: isoformat_def)
    then show ?thesis
      using assms by (simp add: parse_iso_def r nth_append Let_def valid_timestamp_def)
  qed
qed

lemma valid_demo_times:
  "valid_timestamp demo_time" "valid_timestamp demo_time2" "valid_timestamp demo_time3"
  by (simp_all add: valid_timestamp_def demo_time_def demo_time2_def demo_time3_def days_in_month_def)



subsection \<open>Listing notes\<close>

lemma list_notes_eq:
  "list_notes limit s =
     py_take limit (sort_values_desc (map (\<lambda>r. r\<lparr>col_tags := fillna (col_tags r),
        col_title := fillna (col_title r), col_text := fillna (col_text r)\<rparr>) (notes_csv s)))"
  by (simp add: list_notes_def Let_def sort_values_desc_def py_take_def o_def)







lemma csv_cell_text: "v \<notin> set na_values \<Longrightarrow> csv_cell v = Some v"
  by (simp add: csv_cell_def)




text \<open>
  Claim C7. From the initialized empty store, creating a note with title \<^verbatim>\<open>T\<close>, text
  \<^verbatim>\<open>X\<close>, tags \<^verbatim>\<open>a,b\<close> and xp 7 at a valid clock reading and listing with limit 1
  gives exactly one row: id 1, that title, text, tags and xp, and the ISO text of the
  clock reading as timestamp, which parses back to the clock reading.
\<close>

theorem create_list_roundtrip:
  "valid_timestamp now \<Longrightarrow>
     list_notes 1 (snd (save_note ''T'' ''X'' ''a,b'' 7 now empty_store)) =
       [\<lparr>col_id = 1, col_datetime = Some (isoformat now), col_title = Some ''T'',
         col_text = Some ''X'', col_tags = Some ''a,b'', col_xp = Some 7\<rparr>] \<and>
     parse_iso (isoformat now) = Some now"
proof -
  assume v: "valid_timestamp now"
  have c: "csv_cell ''T'' = Some ''T''" "csv_cell ''X'' = Some ''X''" "csv_cell ''a,b'' = Some ''a,b''"
    by (simp_all add: csv_cell_def na_values_def)
  have "notes_csv (snd (save_note ''T'' ''X'' ''a,b'' 7 now empty_store)) =
      [\<lparr>col_id = 1, col_datetime = Some (isoformat now), col_title = Some ''T'',
         col_text = Some ''X'', col_tags = Some ''a,b'', col_xp = Some 7\<rparr>]"
    by (simp add: save_note_def empty_store_def ensure_files_def Let_def csv_cell_isoformat c)
  then have "list_notes 1 (snd (save_note ''T'' ''X'' ''a,b'' 7 now empty_store)) =
       [\<lparr>col_id = 1, col_datetime = Some (isoformat now), col_title = Some ''T'',
         col_text = Some ''X'', col_tags = Some ''a,b'', col_xp = Some 7\<rparr>]"
    by (simp add: list_notes_eq sort_values_desc_def py_take_def fillna_def)
  with parse_iso_isoformat [OF v] show ?thesis by simp
qed


theorem create_list_roundtrip_witness:
  "valid_timestamp demo_time \<and>
   list_notes 1 (snd (save_note ''T'' ''X'' ''a,b'' 7 demo_time empty_store)) =
       [\<lparr>col_id = 1, col_datetime = Some ''2025-03-09T14:05:07'', col_title = Some ''T'',
         col_text = Some ''X'', col_tags = Some ''a,b'', col_xp = Some 7\<rparr>] \<and>
   parse_iso ''2025-03-09T14:05:07'' = Some demo_time"
proof -
  have i: "isoformat demo_time = ''2025-03-09T14:05:07''"
    by code_simp
  from create_list_roundtrip [OF valid_demo_times(1)] valid_demo_times(1) show ?thesis
    unfolding i by blast
qed

subsection \<open>Sequences of calls: ids\<close>

lemma exec_ops_Create:
  "exec_ops (Create ti tx tg x t # ops) s =
     (fst (save_note ti tx tg x t s) # fst (exec_ops ops (snd (save_note ti tx tg x t s))),
      snd (exec_ops ops (snd (save_note ti tx tg x t s))))"
  by (simp split: prod.splits)

lemma save_note_id: "fst (save_note title text tags xp now s) = next_id (notes_csv s)"
  by (simp add: save_note_def next_id_def Let_def)

lemma save_note_ids:
  "ids (notes_csv (snd (save_note title text tags xp now s))) = ids (notes_csv s) @ [next_id (notes_csv s)]"
  by (simp add: save_note_def next_id_def Let_def ids_def)

lemma next_id_greater: "i \<in> set (ids df) \<Longrightarrow> i < next_id df"
proof -
  assume i: "i \<in> set (ids df)"
  then have "df \<noteq> []" by (auto simp: ids_def)
  moreover from i have "i \<le> Max (set (ids df))" by simp
  ultimately show ?thesis by (simp add: next_id_def)
qed

lemma next_id_after_save:
  "next_id (notes_csv (snd (save_note title text tags xp now s))) = next_id (notes_csv s) + 1"
proof -
  let ?df = "notes_csv (snd (save_note title text tags xp now s))"
  have ne: "?df \<noteq> []" by (simp add: save_note_def Let_def)
  have "Max (set (ids ?df)) = next_id (notes_csv s)"
  proof (rule Max_eqI)
    show "finite (set (ids ?df))" by simp
    show "next_id (notes_csv s) \<in> set (ids ?df)" by (simp add: save_note_ids)
    fix y assume "y \<in> set (ids ?df)"
    then show "y \<le> next_id (notes_csv s)"
      using next_id_greater [of y "notes_csv s"] by (auto simp: save_note_ids)
  qed
  with ne show ?thesis by (simp add: next_id_def)
qed

lemma update_note_ids:
  "ids (notes_csv (snd (update_note note_id title text tags xp now s))) = ids (notes_csv s)"
proof (cases "note_id \<in> set (ids (notes_csv s))")
  case True
  then show ?thesis by (simp add: update_note_found ids_def o_def if_distrib cong: if_cong)
next
  case False
  then show ?thesis by (simp add: update_note_def)
qed

lemma next_id_cong: "ids df = ids df' \<Longrightarrow> next_id df = next_id df'"
  by (auto simp: next_id_def ids_def)

lemma next_id_after_update:
  "next_id (notes_csv (snd (update_note note_id title text tags xp now s))) = next_id (notes_csv s)"
  by (rule next_id_cong) (rule update_note_ids)

lemma delete_note_cases:
  "delete_note v s = (False, s) \<or>
   (\<exists>n. py_int v = Some n \<and> n \<in> set (ids (notes_csv s)) \<and>
        notes_csv (snd (delete_note v s)) = filter (\<lambda>r. col_id r \<noteq> n) (notes_csv s))"
proof (cases "py_int v")
  case None
  then show ?thesis by (simp add: delete_note_malformed)
next
  case (Some n)
  show ?thesis
  proof (cases "n \<in> set (ids (notes_csv s))")
    case True
    with Some show ?thesis by (simp add: delete_note_found)
  next
    case False
    with Some show ?thesis by (simp add: delete_note_not_found)
  qed
qed

lemma next_id_filter:
  assumes "df \<noteq> []" and "n \<noteq> Max (set (ids df))"
  shows "next_id (filter (\<lambda>r. col_id r \<noteq> n) df) = next_id df"
proof -
  let ?m = "Max (set (ids df))"
  let ?df' = "filter (\<lambda>r. col_id r \<noteq> n) df"
  from assms(1) have "?m \<in> set (ids df)" using Max_in [of "set (ids df)"] by (simp add: ids_def)
  with assms(2) have m': "?m \<in> set (ids ?df')" by (auto simp: ids_def)
  have ne: "?df' \<noteq> []"
  proof
    assume "?df' = []"
    with m' show False by (simp add: ids_def)
  qed
  have "Max (set (ids ?df')) = ?m"
  proof (rule Max_eqI)
    show "finite (set (ids ?df'))" by simp
    show "?m \<in> set (ids ?df')" by (rule m')
    fix y assume "y \<in> set (ids ?df')"
    then have "y \<in> set (ids df)" by (auto simp: ids_def)
    then show "y \<le> ?m" by simp
  qed
  with ne assms(1) show ?thesis by (simp add: next_id_def)
qed

lemma created_ids_increasing:
  "keeps_highest ops s \<Longrightarrow>
     sorted_wrt (<) (fst (exec_ops ops s)) \<and> (\<forall>i \<in> set (fst (exec_ops ops s)). next_id (notes_csv s) \<le> i)"
proof (induction ops arbitrary: s)
  case Nil
  then show ?case by simp
next
  case (Cons op ops)
  show ?case
  proof (cases op)
    case (Create ti tx tg x t)
    let ?s' = "snd (save_note ti tx tg x t s)"
    from Cons.prems Create have "keeps_highest ops ?s'" by simp
    from Cons.IH [OF this] have
      ih: "sorted_wrt (<) (fst (exec_ops ops ?s'))"
          "\<forall>i \<in> set (fst (exec_ops ops ?s')). next_id (notes_csv s) + 1 \<le> i"
      by (simp_all add: next_id_after_save)
    have "fst (exec_ops (op # ops) s) = next_id (notes_csv s) # fst (exec_ops ops ?s')"
      by (simp add: Create exec_ops_Create save_note_id del: exec_ops.simps(2))
    with ih show ?thesis by fastforce
  next
    case (Update i ti tx tg x t)
    let ?s' = "snd (update_note i ti tx tg x t s)"
    from Cons.prems Update have "keeps_highest ops ?s'" by simp
    from Cons.IH [OF this] show ?thesis
      by (simp add: Update next_id_after_update)
  next
    case (Delete v)
    let ?s' = "snd (delete_note v s)"
    from Cons.prems Delete have k: "keeps_highest ops ?s'" by simp
    have "next_id (notes_csv ?s') = next_id (notes_csv s)"
    proof -
      from delete_note_cases [of v s] show ?thesis
      proof
        assume "delete_note v s = (False, s)"
        then show ?thesis by simp
      next
        assume "\<exists>n. py_int v = Some n \<and> n \<in> set (ids (notes_csv s)) \<and>
          notes_csv ?s' = filter (\<lambda>r. col_id r \<noteq> n) (notes_csv s)"
        then obtain n where n: "py_int v = Some n" "n \<in> set (ids (notes_csv s))"
          "notes_csv ?s' = filter (\<lambda>r. col_id r \<noteq> n) (notes_csv s)" by blast
        from n(2) have ne: "notes_csv s \<noteq> []" by (auto simp: ids_def)
        with Cons.prems Delete n(1) have "n \<noteq> Max (set (ids (notes_csv s)))" by simp
        with ne n(3) show ?thesis by (simp add: next_id_filter)
      qed
    qed
    with Cons.IH [OF k] show ?thesis by (simp add: Delete)
  qed
qed

lemma no_delete_keeps_highest: "\<forall>op \<in> set ops. \<not> is_delete op \<Longrightarrow> keeps_highest ops s"
proof (induction ops arbitrary: s)
  case Nil
  then show ?case by simp
next
  case (Cons op ops)
  then show ?case by (cases op) simp_all
qed

lemma distinct_ids_step:
  "distinct (ids (notes_csv s)) \<Longrightarrow> distinct (ids (notes_csv (snd (save_note title text tags xp now s))))"
  using next_id_greater [of "next_id (notes_csv s)" "notes_csv s"]
  by (auto simp: save_note_ids)

lemma distinct_ids_delete:
  "distinct (ids (notes_csv s)) \<Longrightarrow> distinct (ids (notes_csv (snd (delete_note v s))))"
  using delete_note_cases [of v s] by (auto simp: ids_def distinct_map_filter)

lemma distinct_ids_exec:
  "distinct (ids (notes_csv s)) \<Longrightarrow> distinct (ids (notes_csv (snd (exec_ops ops s))))"
proof (induction ops arbitrary: s)
  case Nil
  then show ?case by simp
next
  case (Cons op ops)
  show ?case
  proof (cases op)
    case (Create ti tx tg x t)
    with Cons.IH [OF distinct_ids_step [OF Cons.prems, of ti tx tg x t]]
    show ?thesis by (simp add: exec_ops_Create del: exec_ops.simps(2))
  next
    case (Update i ti tx tg x t)
    with Cons.IH [of "snd (update_note i ti tx tg x t s)"] Cons.prems
    show ?thesis by (simp add: update_note_ids)
  next
    case (Delete v)
    with Cons.IH [OF distinct_ids_delete [OF Cons.prems, of v]]
    show ?thesis by simp
  qed
qed

lemma demo_ops_run: "fst (exec_ops demo_ops demo_store) = [7, 8]"
  by (simp add: demo_ops_def demo_store_def save_note_def delete_note_def ids_def Let_def)

lemma demo_ops_keep: "keeps_highest demo_ops demo_store"
  by (simp add: demo_ops_def demo_store_def save_note_def delete_note_def ids_def Let_def)

text \<open>
  Claim C1, as stated, fails: the ids returned by create calls are not strictly
  increasing when a delete intervenes. From the empty store, create returns 1; after
  note 1 is deleted the table is empty again and the next create returns 1 once more.
\<close>

theorem created_ids_reused_after_delete:
  "fst (exec_ops [Create ''a'' ''x'' '''' 5 demo_time, Delete (PyInt 1),
                  Create ''b'' ''y'' '''' 5 demo_time] empty_store) = [1, 1] \<and>
   \<not> sorted_wrt (<) (fst (exec_ops [Create ''a'' ''x'' '''' 5 demo_time, Delete (PyInt 1),
                  Create ''b'' ''y'' '''' 5 demo_time] empty_store)) \<and>
   \<not> distinct (fst (exec_ops [Create ''a'' ''x'' '''' 5 demo_time, Delete (PyInt 1),
                  Create ''b'' ''y'' '''' 5 demo_time] empty_store))"
proof -
  have "fst (exec_ops [Create ''a'' ''x'' '''' 5 demo_time, Delete (PyInt 1),
                  Create ''b'' ''y'' '''' 5 demo_time] empty_store) = [1, 1]"
    by (simp add: save_note_def delete_note_def empty_store_def ensure_files_def ids_def Let_def)
  then show ?thesis by simp
qed

text \<open>
  Claim C1, amended. Every \<open>save_note\<close> returns the highest id of the table plus 1,
  or 1 when the table is empty, which is greater than every id in the table at that
  moment. In a sequence of create, update and delete calls in which no delete removes
  the note holding the highest id, in particular in one without deletes, the ids the
  creates return are strictly increasing, hence never repeated. In every sequence the
  ids in the table stay pairwise distinct when they were so at the start.
\<close>

theorem created_ids_amended:
  "fst (save_note title text tags xp now s) =
     (if notes_csv s = [] then 1 else Max (set (ids (notes_csv s))) + 1) \<and>
   (\<forall>i \<in> set (ids (notes_csv s)). i < fst (save_note title text tags xp now s)) \<and>
   (keeps_highest ops s \<longrightarrow> sorted_wrt (<) (fst (exec_ops ops s))) \<and>
   ((\<forall>op \<in> set ops. \<not> is_delete op) \<longrightarrow> sorted_wrt (<) (fst (exec_ops ops s))) \<and>
   (distinct (ids (notes_csv s)) \<longrightarrow> distinct (ids (notes_csv (snd (exec_ops ops s)))))"
proof (intro conjI impI ballI)
  show "fst (save_note title text tags xp now s) =
     (if notes_csv s = [] then 1 else Max (set (ids (notes_csv s))) + 1)"
    by (simp add: save_note_id next_id_def)
next
  fix i assume "i \<in> set (ids (notes_csv s))"
  then show "i < fst (save_note title text tags xp now s)"
    by (simp add: save_note_id next_id_greater)
next
  assume "keeps_highest ops s"
  then show "sorted_wrt (<) (fst (exec_ops ops s))"
    using created_ids_increasing by blast
next
  assume "\<forall>op \<in> set ops. \<not> is_delete op"
  then have "keeps_highest ops s" by (rule no_delete_keeps_highest)
  then show "sorted_wrt (<) (fst (exec_ops ops s))"
    using created_ids_increasing by blast
next
  assume "distinct (ids (notes_csv s))"
  then show "distinct (ids (notes_csv (snd (exec_ops ops s))))"
    by (rule distinct_ids_exec)
qed

theorem created_ids_amended_witness:
  "5 \<in> set (ids (notes_csv demo_store)) \<and>
   5 < fst (save_note ''Sets'' ''union'' ''math'' 5 demo_time demo_store) \<and>
   keeps_highest demo_ops demo_store \<and>
   sorted_wrt (<) (fst (exec_ops demo_ops demo_store)) \<and>
   list_all (\<lambda>op. \<not> is_delete op) (take 1 demo_ops) \<and>
   sorted_wrt (<) (fst (exec_ops (take 1 demo_ops) demo_store)) \<and>
   distinct (ids (notes_csv demo_store)) \<and>
   distinct (ids (notes_csv (snd (exec_ops demo_ops demo_store))))"
proof -
  have a: "5 \<in> set (ids (notes_csv demo_store))" by (simp add: demo_store_def ids_def)
  have b: "keeps_highest demo_ops demo_store" by (rule demo_ops_keep)
  have c: "\<forall>op \<in> set (take 1 demo_ops). \<not> is_delete op" by (simp add: demo_ops_def)
  have d: "distinct (ids (notes_csv demo_store))" by (simp add: demo_store_def ids_def)
  from created_ids_amended [of "''Sets''" "''union''" "''math''" 5 demo_time demo_store demo_ops]
    created_ids_amended [of "''Sets''" "''union''" "''math''" 5 demo_time demo_store "take 1 demo_ops"]
    a b c d
  show ?thesis unfolding list_all_iff by blast
qed


subsection \<open>Sequences of calls: the aggregates\<close>

lemma sum_filter_distinct:
  "distinct (ids df) \<Longrightarrow> find (\<lambda>r. col_id r = n) df = Some row \<Longrightarrow>
     recomputed_xp (filter (\<lambda>r. col_id r \<noteq> n) df) = recomputed_xp df - xp_value row \<and>
     recomputed_count (filter (\<lambda>r. col_id r \<noteq> n) df) = recomputed_count df - 1"
proof (induction df)
  case Nil
  then show ?case by simp
next
  case (Cons r df)
  show ?case
  proof (cases "col_id r = n")
    case True
    with Cons.prems have row: "row = r" and notin: "n \<notin> set (ids df)"
      by (auto simp: ids_def)
    from notin have "filter (\<lambda>r. col_id r \<noteq> n) df = df"
      by (auto simp: ids_def filter_id_conv)
    with True row show ?thesis by (simp add: recomputed_xp_def recomputed_count_def)
  next
    case False
    with Cons.prems have "distinct (ids df)" "find (\<lambda>r. col_id r = n) df = Some row"
      by (auto simp: ids_def)
    from Cons.IH [OF this] False show ?thesis
      by (simp add: recomputed_xp_def recomputed_count_def)
  qed
qed

lemma recomputed_xp_nonneg: "\<forall>r \<in> set df. 0 \<le> xp_value r \<Longrightarrow> 0 \<le> recomputed_xp df"
  by (induction df) (auto simp: recomputed_xp_def)

lemma sync_invariant_save:
  assumes "sync_invariant s" and "0 \<le> xp"
  shows "sync_invariant (snd (save_note title text tags xp now s))"
proof -
  from assms(1) have "distinct (ids (notes_csv s))" by (simp add: sync_invariant_def)
  from distinct_ids_step [OF this]
  have "distinct (ids (notes_csv (snd (save_note title text tags xp now s))))" .
  moreover from assms have "\<forall>r \<in> set (notes_csv (snd (save_note title text tags xp now s))). 0 \<le> xp_value r"
    by (auto simp: sync_invariant_def save_note_def Let_def xp_value_def)
  moreover from assms(1) have "stats_in_sync (snd (save_note title text tags xp now s))"
    by (simp add: sync_invariant_def stats_in_sync_def save_note_def Let_def
        recomputed_xp_def recomputed_count_def xp_value_def)
  ultimately show ?thesis by (simp add: sync_invariant_def)
qed

lemma update_note_xp_values:
  "map xp_value (notes_csv (snd (update_note note_id title text tags xp now s))) =
     map xp_value (notes_csv s)"
proof (cases "note_id \<in> set (ids (notes_csv s))")
  case True
  then show ?thesis
    by (simp add: update_note_found xp_value_def o_def if_distrib cong: if_cong)
next
  case False
  then show ?thesis by (simp add: update_note_def)
qed

lemma update_note_stats:
  "stats_json (snd (update_note note_id title text tags xp now s)) = stats_json s"
proof (cases "note_id \<in> set (ids (notes_csv s))")
  case True
  then show ?thesis by (simp add: update_note_found)
next
  case False
  then show ?thesis by (simp add: update_note_def)
qed

lemma sync_invariant_update:
  assumes "sync_invariant s"
  shows "sync_invariant (snd (update_note note_id title text tags xp now s))"
proof -
  let ?s' = "snd (update_note note_id title text tags xp now s)"
  have x: "map xp_value (notes_csv ?s') = map xp_value (notes_csv s)"
    by (rule update_note_xp_values)
  have i: "ids (notes_csv ?s') = ids (notes_csv s)" by (rule update_note_ids)
  from arg_cong [OF i, of length] have l: "length (notes_csv ?s') = length (notes_csv s)"
    by (simp add: ids_def)
  from assms i have "distinct (ids (notes_csv ?s'))" by (simp add: sync_invariant_def)
  moreover have "\<forall>r \<in> set (notes_csv ?s'). 0 \<le> xp_value r"
  proof -
    from assms have "\<forall>v \<in> set (map xp_value (notes_csv s)). 0 \<le> v"
      by (simp add: sync_invariant_def)
    with x have "\<forall>v \<in> set (map xp_value (notes_csv ?s')). 0 \<le> v" by simp
    then show ?thesis by simp
  qed
  moreover from assms x l have "stats_in_sync ?s'"
    by (simp add: sync_invariant_def stats_in_sync_def recomputed_xp_def recomputed_count_def
        update_note_stats)
  ultimately show ?thesis by (simp add: sync_invariant_def)
qed

lemma sync_invariant_delete:
  assumes "sync_invariant s"
  shows "sync_invariant (snd (delete_note v s))"
proof (cases "py_int v")
  case None
  with assms show ?thesis by (simp add: delete_note_malformed)
next
  case (Some n)
  show ?thesis
  proof (cases "n \<in> set (ids (notes_csv s))")
    case False
    with Some assms show ?thesis by (simp add: delete_note_not_found)
  next
    case True
    from find_present [OF True] obtain row where
      row: "find (\<lambda>r. col_id r = n) (notes_csv s) = Some row" "row \<in> set (notes_csv s)" by blast
    from assms have d: "distinct (ids (notes_csv s))" and
      nn: "\<forall>r \<in> set (notes_csv s). 0 \<le> xp_value r" and sy: "stats_in_sync s"
      by (simp_all add: sync_invariant_def)
    let ?df' = "filter (\<lambda>r. col_id r \<noteq> n) (notes_csv s)"
    from sum_filter_distinct [OF d row(1)] have
      f: "recomputed_xp ?df' = recomputed_xp (notes_csv s) - xp_value row"
         "recomputed_count ?df' = recomputed_count (notes_csv s) - 1" by simp_all
    from nn have "0 \<le> recomputed_xp ?df'" by (intro recomputed_xp_nonneg) simp
    with f(1) have x0: "0 \<le> recomputed_xp (notes_csv s) - xp_value row" by simp
    from row(2) have "notes_csv s \<noteq> []" by auto
    then have c0: "0 \<le> recomputed_count (notes_csv s) - 1"
      by (cases "notes_csv s") (simp_all add: recomputed_count_def)
    have "distinct (ids (notes_csv (snd (delete_note v s))))"
      by (rule distinct_ids_delete [OF d])
    moreover from nn have "\<forall>r \<in> set (notes_csv (snd (delete_note v s))). 0 \<le> xp_value r"
      by (simp add: delete_note_found [OF True Some])
    moreover from sy f x0 c0 row(1) have "stats_in_sync (snd (delete_note v s))"
      by (simp add: delete_note_found [OF True Some] stats_in_sync_def)
    ultimately show ?thesis by (simp add: sync_invariant_def)
  qed
qed

lemma sync_invariant_exec:
  "sync_invariant s \<Longrightarrow> \<forall>op \<in> set ops. 0 \<le> created_xp op \<Longrightarrow>
     sync_invariant (snd (exec_ops ops s))"
proof (induction ops arbitrary: s)
  case Nil
  then show ?case by simp
next
  case (Cons op ops)
  from Cons.prems(2) have rest: "\<forall>op \<in> set ops. 0 \<le> created_xp op" by simp
  show ?case
  proof (cases op)
    case (Create ti tx tg x t)
    with Cons.prems(2) have "0 \<le> x" by simp
    from Cons.IH [OF sync_invariant_save [OF Cons.prems(1) this] rest, of ti tx tg t] Create
    show ?thesis by (simp add: exec_ops_Create del: exec_ops.simps(2))
  next
    case (Update i ti tx tg x t)
    from Cons.IH [OF sync_invariant_update [OF Cons.prems(1)] rest, of i ti tx tg x t] Update
    show ?thesis by simp
  next
    case (Delete v)
    from Cons.IH [OF sync_invariant_delete [OF Cons.prems(1)] rest, of v] Delete
    show ?thesis by simp
  qed
qed

lemma sync_invariant_empty: "sync_invariant empty_store"
  by (simp add: sync_invariant_def stats_in_sync_def empty_store_def ensure_files_def ids_def
      recomputed_xp_def recomputed_count_def)

text \<open>
  Claim C2, as stated, fails when a note is created with a negative xp: after
  creating notes with xp -5 and 3 and deleting the second, \<open>total_xp\<close> is
  \<open>max 0 (-2 - 3) = 0\<close> while the xp of the remaining note sums to -5.
\<close>

theorem stats_drift_negative_xp:
  "total_xp (stats_json (snd (exec_ops
      [Create ''a'' ''x'' '''' (- 5) demo_time, Create ''b'' ''y'' '''' 3 demo_time,
       Delete (PyInt 2)] empty_store))) = 0 \<and>
   recomputed_xp (notes_csv (snd (exec_ops
      [Create ''a'' ''x'' '''' (- 5) demo_time, Create ''b'' ''y'' '''' 3 demo_time,
       Delete (PyInt 2)] empty_store))) = - 5 \<and>
   total_xp (stats_json (snd (exec_ops
      [Create ''a'' ''x'' '''' (- 5) demo_time, Create ''b'' ''y'' '''' 3 demo_time,
       Delete (PyInt 2)] empty_store))) \<noteq>
   recomputed_xp (notes_csv (snd (exec_ops
      [Create ''a'' ''x'' '''' (- 5) demo_time, Create ''b'' ''y'' '''' 3 demo_time,
       Delete (PyInt 2)] empty_store)))"
  by (simp add: save_note_def delete_note_def empty_store_def ensure_files_def ids_def Let_def
      recomputed_xp_def xp_value_def)

text \<open>
  Claim C2, amended. After every sequence of create, update and delete calls from the
  initialized empty store in which every created note has an xp of at least 0,
  \<open>total_xp\<close> is the sum of the xp column of the table and \<open>notes_created\<close> is
  its number of rows.
\<close>

theorem stats_match_table:
  "\<forall>op \<in> set ops. 0 \<le> created_xp op \<Longrightarrow>
     total_xp (stats_json (snd (exec_ops ops empty_store))) =
       recomputed_xp (notes_csv (snd (exec_ops ops empty_store))) \<and>
     notes_created (stats_json (snd (exec_ops ops empty_store))) =
       recomputed_count (notes_csv (snd (exec_ops ops empty_store)))"
  using sync_invariant_exec [OF sync_invariant_empty, of ops]
  by (simp add: sync_invariant_def stats_in_sync_def)

theorem stats_match_table_witness:
  "list_all (\<lambda>op. 0 \<le> created_xp op) demo_ops \<and>
   total_xp (stats_json (snd (exec_ops demo_ops empty_store))) =
     recomputed_xp (notes_csv (snd (exec_ops demo_ops empty_store))) \<and>
   notes_created (stats_json (snd (exec_ops demo_ops empty_store))) =
     recomputed_count (notes_csv (snd (exec_ops demo_ops empty_store)))"
proof -
  have h: "\<forall>op \<in> set demo_ops. 0 \<le> created_xp op" by (simp add: demo_ops_def)
  from stats_match_table [OF h] h show ?thesis unfolding list_all_iff by blast
qed


section \<open>Properties of the reminder scheduler\<close>

text \<open>
  Claim C8. For every job table, \<open>remove_job\<close> returns true exactly when the table
  holds a job with the id, and the table afterwards is the table without that id; a
  second call with the same id returns false, as a value, and changes nothing.
\<close>

theorem remove_job_idempotent:
  "fst (remove_job jid jobs) = (jid \<in> dom jobs) \<and>
   snd (remove_job jid jobs) = jobs(jid := None) \<and>
   remove_job jid (snd (remove_job jid jobs)) = (False, snd (remove_job jid jobs))"
  by (auto simp: remove_job_def scheduler_remove_job_def split: option.splits)

theorem remove_job_idempotent_witness:
  "fst (remove_job ''r1'' demo_jobs) = True \<and>
   snd (remove_job ''r1'' demo_jobs) = Map.empty \<and>
   fst (remove_job ''r1'' (snd (remove_job ''r1'' demo_jobs))) = False"
proof -
  have d: "''r1'' \<in> dom demo_jobs" by (simp add: demo_jobs_def)
  have e: "demo_jobs(''r1'' := None) = Map.empty" by (simp add: demo_jobs_def)
  from remove_job_idempotent [of "''r1''" demo_jobs] d e show ?thesis by (metis fst_conv)
qed

section \<open>Properties of the parsers of the AI response\<close>

subsection \<open>One turn of each loop\<close>



















subsection \<open>Every card pairs a question line with a later answer line\<close>



lemma append_if_complete_no_answer [simp]: "append_if_complete cq None acc = acc"
  by (simp add: append_if_complete_def split: option.splits)






subsection \<open>Unanswered questions, blanks and counts\<close>



























end
